theory Spec2Isabelle
  imports Main "HOL-Library.Sublist"
begin

section \<open>The IDL model consumed by the generator\<close>

text \<open>
  The generator of \<^verbatim>\<open>cmd/varlink-go-interface-generator/main.go\<close> reads a parsed
  interface description: the package \<^verbatim>\<open>idl\<close> provides the types. A type node is a tagged
  variant; \<open>Kind\<close> gives its tag, \<open>Fields\<close> the members of a struct node (no members
  for every other node).
\<close>

datatype TypeKind =
    TypeBool | TypeInt | TypeFloat | TypeString | TypeEnum | TypeObject
  | TypeArray | TypeMap | TypeMaybe | TypeAlias | TypeStruct

datatype Type =
    BoolT | IntT | FloatT | StringT | EnumT | ObjectT
  | ArrayT Type | MapT Type | MaybeT Type
  | AliasT string
  | StructT "TypeField list"
and TypeField = TypeField (Name: string) (Type: Type)

fun Kind :: "Type \<Rightarrow> TypeKind" where
  "Kind BoolT = TypeBool"
| "Kind IntT = TypeInt"
| "Kind FloatT = TypeFloat"
| "Kind StringT = TypeString"
| "Kind EnumT = TypeEnum"
| "Kind ObjectT = TypeObject"
| "Kind (ArrayT e) = TypeArray"
| "Kind (MapT e) = TypeMap"
| "Kind (MaybeT e) = TypeMaybe"
| "Kind (AliasT n) = TypeAlias"
| "Kind (StructT fs) = TypeStruct"

fun Fields :: "Type \<Rightarrow> TypeField list" where
  "Fields (StructT fs) = fs"
| "Fields t = []"

record Alias =
  Alias_Name :: string
  Alias_Type :: Type

record Method =
  Method_Name :: string
  In :: Type
  Out :: Type

record Error =
  Error_Name :: string
  Error_Type :: Type

record IDL =
  IDL_Name :: string
  Description :: string
  Aliases :: "Alias list"
  Methods :: "Method list"
  Errors :: "Error list"

section \<open>Identifier sanitization\<close>

definition goKeywords :: "string list" where
  "goKeywords =
    [''break'', ''case'', ''chan'', ''const'', ''continue'', ''default'', ''defer'',
     ''else'', ''fallthrough'', ''for'', ''func'', ''go'', ''goto'', ''if'', ''import'',
     ''interface'', ''map'', ''package'', ''range'', ''return'', ''select'', ''struct'',
     ''switch'', ''type'', ''var'']"

definition sanitizeGoName :: "string \<Rightarrow> string" where
  "sanitizeGoName name = (if name \<notin> set goKeywords then name else name @ ''_'')"

section \<open>Library string functions used by the generator\<close>

text \<open>
  \<^verbatim>\<open>strings.Title\<close> maps the first letter of every word to upper case: a letter starts a
  word when the character before it is a separator, and on ASCII every character but a
  letter, a digit and the underscore is a separator. The names of an interface description
  are ASCII; a byte above 127 is left as it is and does not separate.
\<close>

definition isSeparator :: "char \<Rightarrow> bool" where
  "isSeparator r =
    (let n = (of_char r :: nat) in
     if n \<le> 127 then
       (if 48 \<le> n \<and> n \<le> 57 then False
        else if 97 \<le> n \<and> n \<le> 122 then False
        else if 65 \<le> n \<and> n \<le> 90 then False
        else if n = 95 then False
        else True)
     else False)"

definition toTitle :: "char \<Rightarrow> char" where
  "toTitle r =
    (let n = (of_char r :: nat) in
     if 97 \<le> n \<and> n \<le> 122 then char_of (n - 32) else r)"

fun Title_from :: "char \<Rightarrow> string \<Rightarrow> string" where
  "Title_from prev [] = []"
| "Title_from prev (r # s) =
    (if isSeparator prev then toTitle r # Title_from r s else r # Title_from r s)"

definition Title :: "string \<Rightarrow> string" where
  "Title s = Title_from (CHR '' '') s"

section \<open>The type translator\<close>

definition tabs :: "nat \<Rightarrow> string" where
  "tabs n = replicate n (CHR 0x09)"

definition wire_tag :: "TypeField \<Rightarrow> string" where
  "wire_tag field =
    '' `json:\"'' @ Name field
    @ (if Kind (Type field) = TypeMaybe then '',omitempty'' else [])
    @ ''\"`''"

function writeType :: "Type \<Rightarrow> bool \<Rightarrow> nat \<Rightarrow> string" where
  "writeType BoolT json ident = ''bool''"
| "writeType IntT json ident = ''int64''"
| "writeType FloatT json ident = ''float64''"
| "writeType StringT json ident = ''string''"
| "writeType EnumT json ident = ''string''"
| "writeType ObjectT json ident = ''json.RawMessage''"
| "writeType (ArrayT e) json ident = ''[]'' @ writeType e json ident"
| "writeType (MapT e) json ident = ''map[string]'' @ writeType e json ident"
| "writeType (MaybeT e) json ident = ''*'' @ writeType e json ident"
| "writeType (AliasT a) json ident = a"
| "writeType (StructT fs) json ident =
    (if length fs = 0 then ''struct{}''
     else ''struct {'' @ [CHR 0x0A]
       @ concat (map (\<lambda>field.
           tabs (ident + 1)
           @ Title (Name field) @ '' ''
           @ writeType (Type field) json (ident + 1)
           @ (if json then wire_tag field else [])
           @ [CHR 0x0A]) fs)
       @ tabs ident
       @ ''}'')"
  by pat_completeness auto
termination
proof (relation "measure (\<lambda>(t, json, ident). size t)", goal_cases)
  case (5 fs json ident x)
  have "size (Type x) < size x"
    by (cases x) simp
  moreover have "size x \<le> size_list size fs"
    using 5 by (simp add: size_list_estimation')
  ultimately show ?case
    by simp
qed simp_all

text \<open>
  The recursive calls of \<open>writeType\<close>: on the element type of an array (line 69), of a
  map (line 73) and of a maybe (line 77), and on the type of every field of a struct
  (line 93).
\<close>

inductive writeType_calls :: "Type \<Rightarrow> Type \<Rightarrow> bool" where
  "writeType_calls (ArrayT e) e"
| "writeType_calls (MapT e) e"
| "writeType_calls (MaybeT e) e"
| "field \<in> set fs \<Longrightarrow> writeType_calls (StructT fs) (Type field)"

section \<open>The binding emitter\<close>

text \<open>
  \<^verbatim>\<open>strings.TrimRight\<close>, \<^verbatim>\<open>strings.Replace\<close> and \<^verbatim>\<open>strings.Contains\<close>. \<open>Replace\<close>
  replaces the first \<open>n\<close> occurrences of \<open>old\<close>, all of them when \<open>n\<close> is negative;
  the generator calls it with a non-empty \<open>old\<close> only, and the model leaves the text
  as it is when \<open>old\<close> is empty.
\<close>

definition TrimRight :: "string \<Rightarrow> string \<Rightarrow> string" where
  "TrimRight s cutset = rev (dropWhile (\<lambda>c. c \<in> set cutset) (rev s))"

function Replace :: "string \<Rightarrow> string \<Rightarrow> string \<Rightarrow> int \<Rightarrow> string" where
  "Replace [] old new n = []"
| "Replace (c # cs) old new n =
    (if n \<noteq> 0 \<and> old \<noteq> [] \<and> prefix old (c # cs)
     then new @ Replace (drop (length old - 1) cs) old new (n - 1)
     else c # Replace cs old new n)"
  by pat_completeness auto
termination
  by (relation "measure (\<lambda>(s, old, new, n). length s)") auto

definition Contains :: "string \<Rightarrow> string \<Rightarrow> bool" where
  "Contains s substr = sublist substr s"

text \<open>
  A field whose kind is struct, array or map is converted explicitly wherever the plain
  and the wire form meet (the \<^verbatim>\<open>switch field.Type.Kind\<close> of every assignment loop).
\<close>

definition converted :: "TypeField \<Rightarrow> bool" where
  "converted field = (Kind (Type field) \<in> {TypeStruct, TypeArray, TypeMap})"

text \<open>Lines 136-139, 202-205 and 282-285: one parameter per input field.\<close>

definition in_param :: "TypeField \<Rightarrow> string" where
  "in_param field =
    '', '' @ sanitizeGoName (Name field) @ '' '' @ writeType (Type field) False 1"

text \<open>Lines 145-155: the input struct is filled field by field.\<close>

definition in_assign :: "TypeField \<Rightarrow> string" where
  "in_assign field =
    (if converted field
     then tabs 1 @ ''in.'' @ Title (Name field) @ '' = ''
       @ writeType (Type field) True 1
       @ ''('' @ sanitizeGoName (Name field) @ '')\<newline>''
     else tabs 1 @ ''in.'' @ Title (Name field) @ '' = ''
       @ sanitizeGoName (Name field) @ ''\<newline>'')"

text \<open>Lines 135-161: the client call function of a method.\<close>

definition client_call :: "string \<Rightarrow> Method \<Rightarrow> string" where
  \<open>client_call midl_Name m =
    ''func '' @ Method_Name m @ ''(c_ *varlink.Connection, more_ bool, oneway_ bool''
    @ concat (map in_param (Fields (In m)))
    @ '') error {\<newline>''
    @ (if length (Fields (In m)) > 0
       then tabs 1 @ ''var in '' @ writeType (In m) True 1 @ ''\<newline>''
         @ concat (map in_assign (Fields (In m)))
         @ tabs 1 @ ''return c_.Send("'' @ midl_Name @ ''.'' @ Method_Name m
         @ ''", in, more_, oneway_)\<newline>'' @ ''}\<newline>\<newline>''
       else tabs 1 @ ''return c_.Send("'' @ midl_Name @ ''.'' @ Method_Name m
         @ ''", nil, more_, oneway_)\<newline>'' @ ''}\<newline>\<newline>'')\<close>

text \<open>Lines 164-167: one out-pointer parameter per output field.\<close>

definition out_pointer_param :: "TypeField \<Rightarrow> string" where
  "out_pointer_param field =
    '', '' @ sanitizeGoName (Name field) @ '' *'' @ writeType (Type field) False 1"

text \<open>Lines 180-192: every non-null out-pointer receives its decoded field.\<close>

definition read_assign :: "TypeField \<Rightarrow> string" where
  "read_assign field =
    tabs 1 @ ''if '' @ sanitizeGoName (Name field) @ '' != nil {\<newline>''
    @ (if converted field
       then tabs 2 @ ''*'' @ sanitizeGoName (Name field) @ '' = ''
         @ writeType (Type field) False 2
         @ '' (out.'' @ Title (Name field) @ '')\<newline>''
       else tabs 2 @ ''*'' @ sanitizeGoName (Name field) @ '' = out.''
         @ Title (Name field) @ ''\<newline>'')
    @ tabs 1 @ ''}\<newline>''"

text \<open>Lines 163-195: the reply reader of a method.\<close>

definition client_read :: "Method \<Rightarrow> string" where
  "client_read m =
    ''func Read'' @ Method_Name m @ ''_(c *varlink.Connection''
    @ concat (map out_pointer_param (Fields (Out m)))
    @ '') (bool, error) {\<newline>''
    @ (if length (Fields (Out m)) > 0
       then tabs 1 @ ''var out '' @ writeType (Out m) True 1 @ ''\<newline>''
         @ tabs 1 @ ''continues_, err := c.Receive(&out)\<newline>''
       else tabs 1 @ ''continues_, err := c.Receive(nil)\<newline>'')
    @ tabs 1 @ ''if err != nil {\<newline>''
    @ tabs 2 @ ''return false, err\<newline>''
    @ tabs 1 @ ''}\<newline>''
    @ concat (map read_assign (Fields (Out m)))
    @ tabs 1 @ ''return continues_, nil\<newline>'' @ ''}\<newline>\<newline>''"

text \<open>Lines 200-207: the signature of a method in the service interface.\<close>

definition interface_method :: "Method \<Rightarrow> string" where
  "interface_method m =
    tabs 1 @ Method_Name m @ ''(c VarlinkCall''
    @ concat (map in_param (Fields (In m)))
    @ '') error\<newline>''"

text \<open>
  Lines 216-222 and 249-255: the parameters of a reply method, separated by commas; \<open>i\<close>
  is the index of the loop.
\<close>

fun reply_params :: "nat \<Rightarrow> TypeField list \<Rightarrow> string" where
  "reply_params i [] = []"
| "reply_params i (field # rest) =
    (if i > 0 then '', '' else [])
    @ sanitizeGoName (Name field) @ '' '' @ writeType (Type field) False 1
    @ reply_params (i + 1) rest"

text \<open>Lines 228-238 and 261-271: the reply struct is filled field by field.\<close>

definition out_assign :: "TypeField \<Rightarrow> string" where
  "out_assign field =
    (if converted field
     then tabs 1 @ ''out.'' @ Title (Name field) @ '' = ''
       @ writeType (Type field) True 1
       @ ''('' @ sanitizeGoName (Name field) @ '')\<newline>''
     else tabs 1 @ ''out.'' @ Title (Name field) @ '' = ''
       @ sanitizeGoName (Name field) @ ''\<newline>'')"

text \<open>Lines 214-244: the reply method of an error.\<close>

definition error_reply :: "string \<Rightarrow> Error \<Rightarrow> string" where
  \<open>error_reply midl_Name e =
    ''func (c *VarlinkCall) Reply'' @ Error_Name e @ ''(''
    @ reply_params 0 (Fields (Error_Type e))
    @ '') error {\<newline>''
    @ (if length (Fields (Error_Type e)) > 0
       then tabs 1 @ ''var out '' @ writeType (Error_Type e) True 1 @ ''\<newline>''
         @ concat (map out_assign (Fields (Error_Type e)))
         @ tabs 1 @ ''return c.ReplyError("'' @ midl_Name @ ''.'' @ Error_Name e
         @ ''", &out)\<newline>''
       else tabs 1 @ ''return c.ReplyError("'' @ midl_Name @ ''.'' @ Error_Name e
         @ ''", nil)\<newline>'')
    @ ''}\<newline>\<newline>''\<close>

text \<open>Lines 247-277: the reply method of a method.\<close>

definition method_reply :: "Method \<Rightarrow> string" where
  "method_reply m =
    ''func (c *VarlinkCall) Reply'' @ Method_Name m @ ''(''
    @ reply_params 0 (Fields (Out m))
    @ '') error {\<newline>''
    @ (if length (Fields (Out m)) > 0
       then tabs 1 @ ''var out '' @ writeType (Out m) True 1 @ ''\<newline>''
         @ concat (map out_assign (Fields (Out m)))
         @ tabs 1 @ ''return c.Reply(&out)\<newline>''
       else tabs 1 @ ''return c.Reply(nil)\<newline>'')
    @ ''}\<newline>\<newline>''"

text \<open>Lines 280-289: the default implementation of a method.\<close>

definition dummy_method :: "Method \<Rightarrow> string" where
  \<open>dummy_method m =
    ''func (s *VarlinkInterface) '' @ Method_Name m @ ''(c VarlinkCall''
    @ concat (map in_param (Fields (In m)))
    @ '') error {\<newline>''
    @ tabs 1 @ ''return c.ReplyMethodNotImplemented("'' @ Method_Name m @ ''")\<newline>''
    @ ''}\<newline>\<newline>''\<close>

text \<open>Lines 306-316: the arguments the dispatcher passes on, one per input field.\<close>

definition dispatch_arg :: "TypeField \<Rightarrow> string" where
  "dispatch_arg field =
    (if converted field
     then '', '' @ writeType (Type field) False 2
       @ ''(in.'' @ Title (Name field) @ '')''
     else '', in.'' @ Title (Name field))"

text \<open>
  Lines 294-323: the branch of the dispatcher for a method; line 295 is its case label,
  the bare name of the method between double quotes.
\<close>

definition case_label :: "Method \<Rightarrow> string" where
  \<open>case_label m = tabs 1 @ ''case "'' @ Method_Name m @ ''":\<newline>''\<close>

definition dispatch_case :: "string \<Rightarrow> Method \<Rightarrow> string" where
  \<open>dispatch_case pkgname m =
    case_label m
    @ (if length (Fields (In m)) > 0
       then tabs 2 @ ''var in '' @ writeType (In m) True 2 @ ''\<newline>''
         @ tabs 2 @ ''err := call.GetParameters(&in)\<newline>''
         @ tabs 2 @ ''if err != nil {\<newline>''
         @ tabs 3 @ ''return call.ReplyInvalidParameter("parameters")\<newline>''
         @ tabs 2 @ ''}\<newline>''
         @ tabs 2 @ ''return s.'' @ pkgname @ ''Interface.'' @ Method_Name m
         @ ''(VarlinkCall{call}''
         @ (if length (Fields (In m)) > 0
            then concat (map dispatch_arg (Fields (In m))) else [])
         @ '')\<newline>''
       else tabs 2 @ ''return s.'' @ pkgname @ ''Interface.'' @ Method_Name m
         @ ''(VarlinkCall{call})\<newline>'')
    @ ''\<newline>''\<close>

text \<open>Lines 291-293 and 324-327: the head and the fallback branch of the dispatcher.\<close>

definition dispatch_head :: string where
  "dispatch_head =
    ''// Method call dispatcher\<newline>''
    @ ''func (s *VarlinkInterface) VarlinkDispatch(call varlink.Call, methodname string) error {\<newline>''
    @ tabs 1 @ ''switch methodname {\<newline>''"

definition dispatch_default :: string where
  "dispatch_default =
    tabs 1 @ ''default:\<newline>''
    @ tabs 2 @ ''return call.ReplyMethodNotFound(methodname)\<newline>''
    @ tabs 1 @ ''}\<newline>''
    @ ''}\<newline>\<newline>''"

definition dispatcher :: "string \<Rightarrow> Method list \<Rightarrow> string" where
  "dispatcher pkgname ms =
    dispatch_head @ concat (map (dispatch_case pkgname) ms) @ dispatch_default"

text \<open>
  Lines 119-344 of \<open>generateTemplate\<close>: the text written to the buffer for a parsed
  description \<open>midl\<close>, one definition per section (lines 122-123, 126-131, 133-196,
  198-208, 210-211, 213-244, 246-277, 279-289, 291-327, 329-331, 333-335, 337-344);
  \<open>declarations\<close> is all that follows the import placeholder of line 124. The unit name
  is the interface name without its dots.
\<close>

definition pkgname_of :: "IDL \<Rightarrow> string" where
  "pkgname_of midl = Replace (IDL_Name midl) ''.'' [] (- 1)"

definition unit_header :: "string \<Rightarrow> string" where
  "unit_header pkgname =
    ''// Generated with github.com/varlink/go/cmd/varlink-go-interface-generator\<newline>''
    @ ''package '' @ pkgname @ ''\<newline>\<newline>''"

definition type_declaration :: "Alias \<Rightarrow> string" where
  "type_declaration a =
    ''type '' @ Alias_Name a @ '' '' @ writeType (Alias_Type a) True 0 @ ''\<newline>\<newline>''"

definition type_declarations :: "IDL \<Rightarrow> string" where
  "type_declarations midl =
    ''// Type declarations\<newline>''
    @ concat (map type_declaration (Aliases midl))"

definition client_functions :: "IDL \<Rightarrow> string" where
  "client_functions midl =
    ''// Client method calls and reply readers\<newline>''
    @ concat (map (\<lambda>m. client_call (IDL_Name midl) m @ client_read m) (Methods midl))"

definition service_interface :: "string \<Rightarrow> Method list \<Rightarrow> string" where
  "service_interface pkgname ms =
    ''// Service interface with all methods\<newline>''
    @ ''type '' @ pkgname @ ''Interface interface {\<newline>''
    @ concat (map interface_method ms)
    @ ''}\<newline>\<newline>''"

definition call_wrapper :: string where
  "call_wrapper =
    ''// Service object with all methods\<newline>''
    @ ''type VarlinkCall struct{ varlink.Call }\<newline>\<newline>''"

definition error_replies :: "IDL \<Rightarrow> string" where
  "error_replies midl =
    ''// Reply methods for all varlink errors\<newline>''
    @ concat (map (error_reply (IDL_Name midl)) (Errors midl))"

definition method_replies :: "IDL \<Rightarrow> string" where
  "method_replies midl =
    ''// Reply methods for all varlink methods\<newline>''
    @ concat (map method_reply (Methods midl))"

definition dummy_methods :: "IDL \<Rightarrow> string" where
  "dummy_methods midl =
    ''// Dummy methods for all varlink methods\<newline>''
    @ concat (map dummy_method (Methods midl))"

definition name_accessor :: "IDL \<Rightarrow> string" where
  "name_accessor midl =
    ''// Varlink interface name\<newline>''
    @ ''func (s *VarlinkInterface) VarlinkGetName() string {\<newline>''
    @ tabs 1 @ ''return `'' @ IDL_Name midl @ ''`\<newline>'' @ ''}\<newline>\<newline>''"

definition description_accessor :: "IDL \<Rightarrow> string" where
  "description_accessor midl =
    ''// Varlink interface description\<newline>''
    @ ''func (s *VarlinkInterface) VarlinkGetDescription() string {\<newline>''
    @ tabs 1 @ ''return `'' @ Description midl @ ''\<newline>`\<newline>}\<newline>\<newline>''"

definition adapter :: "string \<Rightarrow> string" where
  "adapter pkgname =
    ''// Service interface\<newline>''
    @ ''type VarlinkInterface struct {\<newline>''
    @ tabs 1 @ pkgname @ ''Interface\<newline>''
    @ ''}\<newline>\<newline>''
    @ ''func VarlinkNew(m '' @ pkgname @ ''Interface) *VarlinkInterface {\<newline>''
    @ tabs 1 @ ''return &VarlinkInterface{m}\<newline>''
    @ ''}\<newline>''"

definition declarations :: "IDL \<Rightarrow> string" where
  "declarations midl =
    (let pkgname = pkgname_of midl in
     type_declarations midl
     @ client_functions midl
     @ service_interface pkgname (Methods midl)
     @ call_wrapper
     @ error_replies midl
     @ method_replies midl
     @ dummy_methods midl
     @ dispatcher pkgname (Methods midl)
     @ name_accessor midl
     @ description_accessor midl
     @ adapter pkgname)"

definition buffer_text :: "IDL \<Rightarrow> string" where
  "buffer_text midl =
    unit_header (pkgname_of midl)
    @ ''@IMPORTS@\<newline>\<newline>''
    @ declarations midl"

text \<open>Lines 346-352: the import placeholder is replaced once the whole text is known.\<close>

definition import_both :: string where
  \<open>import_both =
    ''import (\<newline>'' @ tabs 1 @ ''"github.com/varlink/go/varlink"\<newline>''
    @ tabs 1 @ ''"encoding/json"\<newline>'' @ '')''\<close>

definition import_varlink :: string where
  \<open>import_varlink = ''import "github.com/varlink/go/varlink"''\<close>

definition with_imports :: "string \<Rightarrow> string" where
  "with_imports ret_string =
    (if Contains ret_string ''json.RawMessage''
     then Replace ret_string ''@IMPORTS@'' import_both 1
     else Replace ret_string ''@IMPORTS@'' import_varlink 1)"

text \<open>
  \<open>generateTemplate\<close> (lines 111-360). The parser \<^verbatim>\<open>idl.New\<close> and the formatter
  \<^verbatim>\<open>format.Source\<close> are the two collaborators of the generator: each is a function that
  returns an error (\<open>Inl\<close>) or its result. The three results of the Go function are the
  unit name, the formatted text (\<open>None\<close> for the nil slice) and the error (\<open>None\<close>
  for nil).
\<close>

definition generateTemplate ::
  "(string \<Rightarrow> 'e + IDL) \<Rightarrow> (string \<Rightarrow> 'e + string) \<Rightarrow> string
    \<Rightarrow> string \<times> string option \<times> 'e option" where
  "generateTemplate idl_New format_Source description0 =
    (let description = TrimRight description0 ''\<newline>'' in
     case idl_New description of
       Inl err \<Rightarrow> ([], None, Some err)
     | Inr midl \<Rightarrow>
        (let pkgname = pkgname_of midl;
             ret_string = with_imports (buffer_text midl)
         in case format_Source ret_string of
              Inl err \<Rightarrow> ([], None, Some err)
            | Inr pretty \<Rightarrow> (pkgname, Some pretty, None)))"

section \<open>Example interface descriptions\<close>

text \<open>
  The interface \<^verbatim>\<open>org.example.Ping\<close> with the one method
  \<^verbatim>\<open>Ping(ping: string) -> (pong: string)\<close>, and a method without parameters.
\<close>

definition Ping_method :: Method where
  "Ping_method =
    \<lparr>Method_Name = ''Ping'', In = StructT [TypeField ''ping'' StringT],
     Out = StructT [TypeField ''pong'' StringT]\<rparr>"

definition Ping_model :: IDL where
  "Ping_model =
    \<lparr>IDL_Name = ''org.example.Ping'',
     Description =
       ''interface org.example.Ping\<newline>method Ping(ping: string) -> (pong: string)'',
     Aliases = [],
     Methods = [Ping_method],
     Errors = []\<rparr>"

definition Stop_method :: Method where
  "Stop_method = \<lparr>Method_Name = ''Stop'', In = StructT [], Out = StructT []\<rparr>"


section \<open>Comparing the two renderings of a type\<close>

text \<open>
  The spec compares the wire-tagged and the plain rendering of a type: they are to differ
  in the wire tags only. A wire tag is a space, a backquote and the text up to the next
  backquote (line 95 opens it, line 99 closes it); \<open>drop_wire_tags False\<close> deletes every
  such stretch from a text, the flag telling whether the scan is inside a tag. The names
  of an interface description are identifiers and contain no backquote:
  \<open>backquote_free\<close> says so of the alias and field names of a type.
\<close>

fun drop_wire_tags :: "bool \<Rightarrow> string \<Rightarrow> string" where
  "drop_wire_tags inside [] = []"
| "drop_wire_tags True (c # cs) =
    (if c = CHR 0x60 then drop_wire_tags False cs else drop_wire_tags True cs)"
| "drop_wire_tags False [c] = [c]"
| "drop_wire_tags False (c # d # cs) =
    (if c = CHR '' '' \<and> d = CHR 0x60 then drop_wire_tags True cs
     else c # drop_wire_tags False (d # cs))"

function backquote_free :: "Type \<Rightarrow> bool" where
  "backquote_free (ArrayT e) = backquote_free e"
| "backquote_free (MapT e) = backquote_free e"
| "backquote_free (MaybeT e) = backquote_free e"
| "backquote_free (AliasT a) = (CHR 0x60 \<notin> set a)"
| "backquote_free (StructT fs) =
    list_all (\<lambda>field. CHR 0x60 \<notin> set (Name field) \<and> backquote_free (Type field)) fs"
| "backquote_free BoolT = True"
| "backquote_free IntT = True"
| "backquote_free FloatT = True"
| "backquote_free StringT = True"
| "backquote_free EnumT = True"
| "backquote_free ObjectT = True"
  by pat_completeness auto
termination
proof (relation "measure size", goal_cases)
  case (5 fs x)
  have "size (Type x) < size x"
    by (cases x) simp
  moreover have "size x \<le> size_list size fs"
    using 5 by (simp add: size_list_estimation')
  ultimately show ?case
    by simp
qed simp_all

definition nested_type :: Type where
  "nested_type =
    StructT [TypeField ''opt'' (MaybeT (ArrayT (StructT [TypeField ''x'' IntT]))),
             TypeField ''type'' (MapT (AliasT ''Thing''))]"

section \<open>Object fields and the imports\<close>

text \<open>
  The spec speaks of a model in which some field has Object kind: \<open>has_Object\<close> holds
  of a type that is or contains an Object, \<open>model_has_Object\<close> of a model with such a
  type as an alias or as the type of a field of a method or of an error.
\<close>

function has_Object :: "Type \<Rightarrow> bool" where
  "has_Object ObjectT = True"
| "has_Object (ArrayT e) = has_Object e"
| "has_Object (MapT e) = has_Object e"
| "has_Object (MaybeT e) = has_Object e"
| "has_Object (StructT fs) = list_ex (\<lambda>field. has_Object (Type field)) fs"
| "has_Object BoolT = False"
| "has_Object IntT = False"
| "has_Object FloatT = False"
| "has_Object StringT = False"
| "has_Object EnumT = False"
| "has_Object (AliasT a) = False"
  by pat_completeness auto
termination
proof (relation "measure size", goal_cases)
  case (5 fs x)
  have "size (Type x) < size x"
    by (cases x) simp
  moreover have "size x \<le> size_list size fs"
    using 5 by (simp add: size_list_estimation')
  ultimately show ?case
    by simp
qed simp_all

definition model_has_Object :: "IDL \<Rightarrow> bool" where
  "model_has_Object midl =
    (list_ex (\<lambda>a. has_Object (Alias_Type a)) (Aliases midl)
     \<or> list_ex (\<lambda>m. list_ex (\<lambda>field. has_Object (Type field)) (Fields (In m))
           \<or> list_ex (\<lambda>field. has_Object (Type field)) (Fields (Out m))) (Methods midl)
     \<or> list_ex (\<lambda>e. list_ex (\<lambda>field. has_Object (Type field)) (Fields (Error_Type e)))
          (Errors midl))"


section \<open>What the formatter must reject\<close>






section \<open>Methods without input fields\<close>

text \<open>
  C2, as the code has it. A method with zero input fields sends \<^verbatim>\<open>nil\<close> as its payload:
  the client call function has no input struct and passes \<^verbatim>\<open>nil\<close> to \<^verbatim>\<open>c_.Send\<close>. Its
  branch of the dispatcher does not decode at all: it invokes the interface method with
  the call wrapper only, and \<^verbatim>\<open>GetParameters\<close> is not called, with no destination
  whatever.
\<close>

theorem no_input_method:
  assumes "Fields (In m) = []"
  shows \<open>client_call midl_Name m =
      ''func '' @ Method_Name m
      @ ''(c_ *varlink.Connection, more_ bool, oneway_ bool) error {\<newline>''
      @ tabs 1 @ ''return c_.Send("'' @ midl_Name @ ''.'' @ Method_Name m
      @ ''", nil, more_, oneway_)\<newline>}\<newline>\<newline>''
    \<and> dispatch_case pkgname m =
      tabs 1 @ ''case "'' @ Method_Name m @ ''":\<newline>''
      @ tabs 2 @ ''return s.'' @ pkgname @ ''Interface.'' @ Method_Name m
      @ ''(VarlinkCall{call})\<newline>\<newline>''\<close>
  using assms by (simp add: client_call_def dispatch_case_def case_label_def)

theorem no_input_method_witness:
  \<open>client_call ''org.example'' Stop_method =
      ''func Stop(c_ *varlink.Connection, more_ bool, oneway_ bool) error {\<newline>''
      @ tabs 1 @ ''return c_.Send("org.example.Stop", nil, more_, oneway_)\<newline>}\<newline>\<newline>''
    \<and> dispatch_case ''orgexample'' Stop_method =
      tabs 1 @ ''case "Stop":\<newline>''
      @ tabs 2 @ ''return s.orgexampleInterface.Stop(VarlinkCall{call})\<newline>\<newline>''\<close>
  using no_input_method [of Stop_method "''org.example''" "''orgexample''"]
  by (simp add: Stop_method_def)

text \<open>
  The dispatcher branch of the method \<^verbatim>\<open>Stop()\<close> does not mention the parameter decoder:
  that the branch of such a method decodes with a null destination fails there.
\<close>

theorem no_input_dispatch_counterexample:
  \<open>\<not> Contains (dispatch_case ''orgexample'' Stop_method) ''GetParameters''\<close>
  by code_simp

section \<open>Optional fields\<close>

text \<open>
  C6. In the wire-tagged rendering of a struct every member line ends with the wire tag of
  its field, and the tag carries \<^verbatim>\<open>,omitempty\<close> exactly when the kind of the field's type
  is Maybe: the tag with the marking is the tag of the Maybe fields, the tag without it
  the tag of all others.
\<close>

theorem wire_tag_omitempty_iff_Maybe:
  \<open>(wire_tag field = '' `json:"'' @ Name field @ '',omitempty"`'')
      = (Kind (Type field) = TypeMaybe)
   \<and> (wire_tag field = '' `json:"'' @ Name field @ ''"`'')
      = (Kind (Type field) \<noteq> TypeMaybe)
   \<and> writeType (StructT (field # fs)) True ident =
       ''struct {\<newline>''
       @ concat (map (\<lambda>f. tabs (ident + 1) @ Title (Name f) @ '' ''
           @ writeType (Type f) True (ident + 1) @ wire_tag f @ ''\<newline>'') (field # fs))
       @ tabs ident @ ''}''\<close>
  by (simp add: wire_tag_def)

section \<open>Determinism and failure\<close>



text \<open>
  C8. When the formatter rejects the assembled text, \<open>generateTemplate\<close> returns the
  formatter's error with the empty unit name and no text; and whenever it returns an
  error at all, the unit name is empty and the text is absent.
\<close>

theorem format_failure_aborts:
  "(idl_New (TrimRight description ''\<newline>'') = Inr midl
      \<and> format_Source (with_imports (buffer_text midl)) = Inl err
     \<longrightarrow> generateTemplate idl_New format_Source description = ([], None, Some err))
   \<and> (snd (snd (generateTemplate idl_New format_Source description)) \<noteq> None
     \<longrightarrow> fst (generateTemplate idl_New format_Source description) = []
       \<and> fst (snd (generateTemplate idl_New format_Source description)) = None)"
  by (simp add: generateTemplate_def Let_def split: sum.splits)

theorem format_failure_aborts_witness:
  "generateTemplate (\<lambda>d. Inr Ping_model) (\<lambda>t. Inl (1::nat)) ''x\<newline>'' = ([], None, Some 1)
   \<and> fst (generateTemplate (\<lambda>d. Inl (2::nat)) (\<lambda>t. Inr t) ''x\<newline>'') = []
   \<and> fst (snd (generateTemplate (\<lambda>d. Inl (2::nat)) (\<lambda>t. Inr t) ''x\<newline>'')) = None"
  using format_failure_aborts
      [of "\<lambda>d. Inr Ping_model" "''x\<newline>''" Ping_model "\<lambda>t. Inl (1::nat)" 1]
    format_failure_aborts
      [of "\<lambda>d. Inl (2::nat)" "''x\<newline>''" Ping_model "\<lambda>t. Inr t" 2]
  by (simp add: generateTemplate_def)

section \<open>Termination of the type translator\<close>

lemma size_field_type: "x \<in> set fs \<Longrightarrow> size (Type x) < size (StructT fs)"
proof -
  assume mem: "x \<in> set fs"
  have "size (Type x) < size x"
    by (cases x) simp
  moreover have "size x \<le> size_list size fs"
    using mem by (simp add: size_list_estimation')
  ultimately show ?thesis
    by simp
qed

lemma writeType_calls_size: "writeType_calls t t' \<Longrightarrow> size t' < size t"
  by (induction rule: writeType_calls.induct) (auto dest: size_field_type)

lemma writeType_rel_calls: "writeType_rel x y \<Longrightarrow> writeType_calls (fst y) (fst x)"
  by (induction rule: writeType_rel.induct) (auto intro: writeType_calls.intros)

text \<open>
  C10. \<open>writeType_rel\<close> relates the arguments of every recursive call that the
  definition of \<open>writeType\<close> makes to the arguments of the call that makes it. Every
  argument triple is in the accessible part of that relation, so the recursion ends on
  every type; the calls are those of \<open>writeType_calls\<close>, and each of them is on a type
  strictly smaller than the caller's.
\<close>

theorem writeType_terminates:
  "writeType_dom (t, json, ident)
   \<and> (\<forall>x y. writeType_rel x y \<longrightarrow> writeType_calls (fst y) (fst x))
   \<and> (\<forall>t t'. writeType_calls t t' \<longrightarrow> size t' < size t)"
proof -
  have "wfp writeType_rel"
    by (rule wfp_if_convertible_to_nat [of _ "\<lambda>x. size (fst x)"])
      (simp add: writeType_calls_size writeType_rel_calls)
  then have "writeType_dom (t, json, ident)"
    by (rule accp_wfpD)
  then show ?thesis
    by (simp add: writeType_calls_size writeType_rel_calls)
qed

theorem writeType_terminates_witness:
  "writeType_dom (StructT [TypeField ''a'' (ArrayT BoolT)], True, 0)
   \<and> writeType_calls (StructT [TypeField ''a'' (ArrayT BoolT)]) (ArrayT BoolT)
   \<and> size (ArrayT BoolT) < size (StructT [TypeField ''a'' (ArrayT BoolT)])"
proof -
  have call: "writeType_rel (Type (TypeField ''a'' (ArrayT BoolT)), True, 0 + 1)
      (StructT [TypeField ''a'' (ArrayT BoolT)], True, 0)"
    by (rule writeType_rel.intros) simp_all
  from writeType_terminates [of "StructT [TypeField ''a'' (ArrayT BoolT)]" True 0] call
  have calls: "writeType_calls (StructT [TypeField ''a'' (ArrayT BoolT)]) (ArrayT BoolT)"
    by fastforce
  with writeType_terminates [of "StructT [TypeField ''a'' (ArrayT BoolT)]" True 0]
  have "size (ArrayT BoolT) < size (StructT [TypeField ''a'' (ArrayT BoolT)])"
    by blast
  with calls writeType_terminates [of "StructT [TypeField ''a'' (ArrayT BoolT)]" True 0]
  show ?thesis
    by simp
qed

section \<open>Reserved words as field names\<close>




section \<open>The dispatcher\<close>









section \<open>Wire-tagged and plain rendering\<close>

lemma plain_before_other:
  "CHR 0x60 \<notin> set a \<Longrightarrow> rest = [] \<or> hd rest \<noteq> CHR 0x60
   \<Longrightarrow> drop_wire_tags False (a @ rest) = a @ drop_wire_tags False rest"
proof (induction a)
  case Nil
  then show ?case by simp
next
  case (Cons c a)
  show ?case
  proof (cases a)
    case Nil
    then show ?thesis using Cons.prems by (cases rest) auto
  next
    case (Cons d a')
    then show ?thesis using Cons.IH Cons.prems by auto
  qed
qed

lemma plain_not_space_end:
  "CHR 0x60 \<notin> set a \<Longrightarrow> a \<noteq> [] \<Longrightarrow> last a \<noteq> CHR '' ''
   \<Longrightarrow> drop_wire_tags False (a @ rest) = a @ drop_wire_tags False rest"
proof (induction a)
  case Nil
  then show ?case by simp
next
  case (Cons c a)
  show ?case
  proof (cases a)
    case Nil
    then show ?thesis using Cons.prems by (cases rest) auto
  next
    case (Cons d a')
    then show ?thesis using Cons.IH Cons.prems by auto
  qed
qed

lemma inside_tag:
  "CHR 0x60 \<notin> set tag
   \<Longrightarrow> drop_wire_tags True (tag @ CHR 0x60 # rest) = drop_wire_tags False rest"
  by (induction tag) auto

lemma wire_tag_dropped:
  assumes "CHR 0x60 \<notin> set (Name field)"
  shows "drop_wire_tags False (wire_tag field @ rest) = drop_wire_tags False rest"
proof -
  define body where \<open>body = ''json:"'' @ Name field
    @ (if Kind (Type field) = TypeMaybe then '',omitempty'' else []) @ ''"''\<close>
  have body: "CHR 0x60 \<notin> set body"
    using assms by (simp add: body_def)
  have "wire_tag field @ rest = CHR '' '' # CHR 0x60 # (body @ CHR 0x60 # rest)"
    by (simp add: wire_tag_def body_def)
  then show ?thesis
    using inside_tag [OF body] by simp
qed

lemma toTitle_backquote: "(toTitle r = CHR 0x60) = (r = CHR 0x60)"
proof (cases "97 \<le> (of_char r :: nat) \<and> (of_char r :: nat) \<le> 122")
  case True
  then have "(of_char r - 32 :: nat) < 256"
    by linarith
  then have "(of_char r - 32 :: nat) mod 256 = of_char r - 32"
    by (rule mod_less)
  then have "of_char (toTitle r) = (of_char r - 32 :: nat)"
    using True by (simp add: toTitle_def Let_def)
  then have "(of_char (toTitle r) :: nat) < 96"
    using True by linarith
  moreover have "of_char (CHR 0x60) = (96 :: nat)"
    by simp
  ultimately have "toTitle r \<noteq> CHR 0x60"
    by auto
  moreover have "r \<noteq> CHR 0x60"
    using True by auto
  ultimately show ?thesis
    by simp
next
  case False
  then have "toTitle r = r"
    by (auto simp: toTitle_def Let_def)
  then show ?thesis
    by simp
qed

lemma Title_from_backquote:
  "CHR 0x60 \<notin> set s \<Longrightarrow> CHR 0x60 \<notin> set (Title_from prev s)"
proof (induction s arbitrary: prev)
  case Nil
  then show ?case by simp
next
  case (Cons r s)
  then have "r \<noteq> CHR 0x60"
    by auto
  then have "toTitle r \<noteq> CHR 0x60"
    by (simp add: toTitle_backquote)
  then show ?case
    using Cons by auto
qed

lemma Title_backquote: "CHR 0x60 \<notin> set s \<Longrightarrow> CHR 0x60 \<notin> set (Title s)"
  by (simp add: Title_def Title_from_backquote)

lemma tabs_backquote: "CHR 0x60 \<notin> set (tabs n)"
  by (simp add: tabs_def)

lemma writeType_start:
  "backquote_free t \<Longrightarrow> writeType t json ident = [] \<or> hd (writeType t json ident) \<noteq> CHR 0x60"
  by (cases t) (auto simp: hd_append dest: hd_in_set)


lemma drop_wire_tags_lines:
  assumes IH: "\<And>x rest. x \<in> set fs \<Longrightarrow> backquote_free (Type x)
      \<Longrightarrow> rest = [] \<or> hd rest \<noteq> CHR 0x60
      \<Longrightarrow> drop_wire_tags False (writeType (Type x) json n @ rest)
          = writeType (Type x) False n @ drop_wire_tags False rest"
    and free: "list_all (\<lambda>field. CHR 0x60 \<notin> set (Name field) \<and> backquote_free (Type field)) fs"
  shows "drop_wire_tags False
      (concat (map (\<lambda>field. tabs n @ Title (Name field) @ '' ''
          @ writeType (Type field) json n
          @ (if json then wire_tag field else []) @ ''\<newline>'') fs) @ rest)
    = concat (map (\<lambda>field. tabs n @ Title (Name field) @ '' ''
          @ writeType (Type field) False n @ ''\<newline>'') fs)
      @ drop_wire_tags False rest"
  using assms
proof (induction fs)
  case Nil
  then show ?case by simp
next
  case (Cons f fs)
  define tail where "tail = concat (map (\<lambda>field. tabs n @ Title (Name field) @ '' ''
          @ writeType (Type field) json n
          @ (if json then wire_tag field else []) @ ''\<newline>'') fs) @ rest"
  define after where "after = (if json then wire_tag f else []) @ ''\<newline>'' @ tail"
  have name: "CHR 0x60 \<notin> set (Name f)" and type: "backquote_free (Type f)"
    using Cons.prems(2) by simp_all
  have after_start: "after \<noteq> [] \<and> hd after \<noteq> CHR 0x60"
    by (simp add: after_def wire_tag_def)
  have start: "CHR 0x60 \<notin> set (tabs n @ Title (Name f) @ '' '')"
    using name by (simp add: tabs_backquote Title_backquote)
  have type_start: "writeType (Type f) json n @ after = []
      \<or> hd (writeType (Type f) json n @ after) \<noteq> CHR 0x60"
    using writeType_start [OF type, of json n] after_start by (auto simp: hd_append)
  have newline: "drop_wire_tags False (''\<newline>'' @ tail) = ''\<newline>'' @ drop_wire_tags False tail"
    by (rule plain_not_space_end) simp_all
  have "drop_wire_tags False after = ''\<newline>'' @ drop_wire_tags False tail"
  proof (cases json)
    case True
    then show ?thesis
      using wire_tag_dropped [OF name, of "''\<newline>'' @ tail"] newline by (simp add: after_def)
  next
    case False
    then show ?thesis
      using newline by (simp add: after_def)
  qed
  moreover have "drop_wire_tags False (writeType (Type f) json n @ after)
      = writeType (Type f) False n @ drop_wire_tags False after"
    using Cons.prems(1) [of f after] type after_start by simp
  moreover have "drop_wire_tags False
      ((tabs n @ Title (Name f) @ '' '') @ writeType (Type f) json n @ after)
      = (tabs n @ Title (Name f) @ '' '')
        @ drop_wire_tags False (writeType (Type f) json n @ after)"
    using start type_start by (rule plain_before_other)
  moreover have "drop_wire_tags False tail
      = concat (map (\<lambda>field. tabs n @ Title (Name field) @ '' ''
          @ writeType (Type field) False n @ ''\<newline>'') fs)
        @ drop_wire_tags False rest"
    unfolding tail_def using Cons.prems by (intro Cons.IH) simp_all
  ultimately show ?case
    by (simp add: after_def tail_def)
qed


lemma drop_wire_tags_writeType:
  "backquote_free t \<Longrightarrow> rest = [] \<or> hd rest \<noteq> CHR 0x60
   \<Longrightarrow> drop_wire_tags False (writeType t json ident @ rest)
     = writeType t False ident @ drop_wire_tags False rest"
proof (induction t json ident arbitrary: rest rule: writeType.induct)
  case (1 json ident)
  then show ?case using plain_before_other [of "''bool''" rest] by simp
next
  case (2 json ident)
  then show ?case using plain_before_other [of "''int64''" rest] by simp
next
  case (3 json ident)
  then show ?case using plain_before_other [of "''float64''" rest] by simp
next
  case (4 json ident)
  then show ?case using plain_before_other [of "''string''" rest] by simp
next
  case (5 json ident)
  then show ?case using plain_before_other [of "''string''" rest] by simp
next
  case (6 json ident)
  then show ?case using plain_before_other [of "''json.RawMessage''" rest] by simp
next
  case (7 e json ident)
  then show ?case
    using plain_not_space_end [of "''[]''" "writeType e json ident @ rest"] by simp
next
  case (8 e json ident)
  then show ?case
    using plain_not_space_end [of "''map[string]''" "writeType e json ident @ rest"] by simp
next
  case (9 e json ident)
  then show ?case
    using plain_not_space_end [of "''*''" "writeType e json ident @ rest"] by simp
next
  case (10 a json ident)
  then show ?case using plain_before_other [of a rest] by simp
next
  case (11 fs json ident)
  show ?case
  proof (cases "fs = []")
    case True
    then show ?thesis
      using 11 plain_before_other [of "''struct{}''" rest] by simp
  next
    case False
    have free: "list_all (\<lambda>field. CHR 0x60 \<notin> set (Name field) \<and> backquote_free (Type field)) fs"
      using "11.prems"(1) by simp
    have IH: "drop_wire_tags False (writeType (Type x) json (ident + 1) @ r)
          = writeType (Type x) False (ident + 1) @ drop_wire_tags False r"
      if "x \<in> set fs" "backquote_free (Type x)" "r = [] \<or> hd r \<noteq> CHR 0x60" for x r
      using "11.IH" [of x r] False that by simp
    have close_brace: "drop_wire_tags False ((tabs ident @ ''}'') @ rest)
        = (tabs ident @ ''}'') @ drop_wire_tags False rest"
      by (rule plain_not_space_end) (simp_all add: tabs_backquote)
    have open_brace: "drop_wire_tags False (''struct {\<newline>'' @ r)
        = ''struct {\<newline>'' @ drop_wire_tags False r" for r
      by (rule plain_not_space_end) simp_all
    show ?thesis
      using False open_brace close_brace
        drop_wire_tags_lines [of fs json "ident + 1" "(tabs ident @ ''}'') @ rest", OF IH free]
      by simp
  qed
qed


lemma subseq_line:
  assumes "subseq w1 w2"
  shows "subseq (a @ w1 @ ''\<newline>'') (a @ w2 @ tag @ ''\<newline>'')"
proof -
  have "subseq ''\<newline>'' (tag @ ''\<newline>'')"
    by (rule list_emb_append2) simp
  with assms have "subseq (w1 @ ''\<newline>'') (w2 @ tag @ ''\<newline>'')"
    by (rule list_emb_append_mono)
  then show ?thesis
    by (rule list_emb_append_mono [OF subseq_order.order_refl])
qed

lemma subseq_lines:
  assumes "\<And>x. x \<in> set fs \<Longrightarrow> subseq (writeType (Type x) False n) (writeType (Type x) json n)"
  shows "subseq
      (concat (map (\<lambda>field. tabs n @ Title (Name field) @ '' ''
          @ writeType (Type field) False n @ ''\<newline>'') fs))
      (concat (map (\<lambda>field. tabs n @ Title (Name field) @ '' ''
          @ writeType (Type field) json n
          @ (if json then wire_tag field else []) @ ''\<newline>'') fs))"
  using assms
proof (induction fs)
  case Nil
  then show ?case by simp
next
  case (Cons f fs)
  have "subseq (writeType (Type f) False n) (writeType (Type f) json n)"
    using Cons.prems by simp
  then have line: "subseq
      (tabs n @ Title (Name f) @ '' '' @ writeType (Type f) False n @ ''\<newline>'')
      (tabs n @ Title (Name f) @ '' '' @ writeType (Type f) json n
        @ (if json then wire_tag f else []) @ ''\<newline>'')"
    using subseq_line [of "writeType (Type f) False n" "writeType (Type f) json n"
        "tabs n @ Title (Name f) @ '' ''" "if json then wire_tag f else []"]
    by simp
  have rest: "subseq
      (concat (map (\<lambda>field. tabs n @ Title (Name field) @ '' ''
          @ writeType (Type field) False n @ ''\<newline>'') fs))
      (concat (map (\<lambda>field. tabs n @ Title (Name field) @ '' ''
          @ writeType (Type field) json n
          @ (if json then wire_tag field else []) @ ''\<newline>'') fs))"
    using Cons.prems by (intro Cons.IH) simp
  from line rest have "subseq
      ((tabs n @ Title (Name f) @ '' '' @ writeType (Type f) False n @ ''\<newline>'')
        @ concat (map (\<lambda>field. tabs n @ Title (Name field) @ '' ''
          @ writeType (Type field) False n @ ''\<newline>'') fs))
      ((tabs n @ Title (Name f) @ '' '' @ writeType (Type f) json n
          @ (if json then wire_tag f else []) @ ''\<newline>'')
        @ concat (map (\<lambda>field. tabs n @ Title (Name field) @ '' ''
          @ writeType (Type field) json n
          @ (if json then wire_tag field else []) @ ''\<newline>'') fs))"
    by (rule list_emb_append_mono)
  then show ?case
    by simp
qed

lemma subseq_writeType: "subseq (writeType t False ident) (writeType t json ident)"
proof (induction t json ident rule: writeType.induct)
  case (11 fs json ident)
  show ?case
  proof (cases "fs = []")
    case True
    then show ?thesis by simp
  next
    case False
    have "subseq
        (concat (map (\<lambda>field. tabs (ident + 1) @ Title (Name field) @ '' ''
            @ writeType (Type field) False (ident + 1) @ ''\<newline>'') fs))
        (concat (map (\<lambda>field. tabs (ident + 1) @ Title (Name field) @ '' ''
            @ writeType (Type field) json (ident + 1)
            @ (if json then wire_tag field else []) @ ''\<newline>'') fs))"
      using 11 False by (intro subseq_lines) simp
    then have "subseq
        (concat (map (\<lambda>field. tabs (ident + 1) @ Title (Name field) @ '' ''
            @ writeType (Type field) False (ident + 1) @ ''\<newline>'') fs) @ tabs ident @ ''}'')
        (concat (map (\<lambda>field. tabs (ident + 1) @ Title (Name field) @ '' ''
            @ writeType (Type field) json (ident + 1)
            @ (if json then wire_tag field else []) @ ''\<newline>'') fs) @ tabs ident @ ''}'')"
      by (rule list_emb_append_mono [OF _ subseq_order.order_refl])
    then have "subseq
        (''struct {\<newline>'' @ concat (map (\<lambda>field. tabs (ident + 1) @ Title (Name field) @ '' ''
            @ writeType (Type field) False (ident + 1) @ ''\<newline>'') fs) @ tabs ident @ ''}'')
        (''struct {\<newline>'' @ concat (map (\<lambda>field. tabs (ident + 1) @ Title (Name field) @ '' ''
            @ writeType (Type field) json (ident + 1)
            @ (if json then wire_tag field else []) @ ''\<newline>'') fs) @ tabs ident @ ''}'')"
      by (rule list_emb_append_mono [OF subseq_order.order_refl])
    then show ?thesis
      using False by simp
  qed
qed simp_all


text \<open>
  C5. The plain rendering of a type is the wire-tagged rendering with characters left
  out; and for a type whose names contain no backquote, what is left out is the wire
  tags: deleting them from the wire-tagged rendering gives the plain rendering, with the
  same member names, element types and nesting, at every depth.
\<close>

theorem wire_and_plain_differ_in_tags:
  "subseq (writeType t False ident) (writeType t True ident)
   \<and> (backquote_free t
     \<longrightarrow> drop_wire_tags False (writeType t True ident) = writeType t False ident)"
  using drop_wire_tags_writeType [of t "[]" True ident] subseq_writeType [of t ident True]
  by simp

theorem wire_and_plain_differ_in_tags_witness:
  "subseq (writeType nested_type False 0) (writeType nested_type True 0)
   \<and> drop_wire_tags False (writeType nested_type True 0) = writeType nested_type False 0"
proof -
  have "backquote_free nested_type"
    by (simp add: nested_type_def)
  then show ?thesis
    using wire_and_plain_differ_in_tags [of nested_type 0] by simp
qed

section \<open>The import of encoding/json\<close>






lemma sublist_left: "sublist x a \<Longrightarrow> sublist x (a @ b)"
  by (auto simp: sublist_append)

lemma sublist_right: "sublist x b \<Longrightarrow> sublist x (a @ b)"
  by (auto simp: sublist_append)







text \<open>
  The other direction holds for every model: an Object anywhere in the model is rendered
  as \<^verbatim>\<open>json.RawMessage\<close>, so the buffer contains the words.
\<close>

lemma sublist_concat_map:
  "x \<in> set xs \<Longrightarrow> sublist s (g x) \<Longrightarrow> sublist s (concat (map g xs))"
  by (induction xs) (auto intro: sublist_left sublist_right)

lemma has_Object_rendered:
  "has_Object t \<Longrightarrow> sublist ''json.RawMessage'' (writeType t json ident)"
proof (induction t json ident rule: writeType.induct)
  case (11 fs json ident)
  then obtain f where f: "f \<in> set fs" "has_Object (Type f)"
    by (auto simp: list_ex_iff)
  then have nonempty: "fs \<noteq> []"
    by auto
  have "sublist ''json.RawMessage'' (writeType (Type f) json (ident + 1))"
    using 11 f nonempty by simp
  then have "sublist ''json.RawMessage''
      (tabs (ident + 1) @ Title (Name f) @ '' '' @ writeType (Type f) json (ident + 1)
        @ (if json then wire_tag f else []) @ ''\<newline>'')"
    by (intro sublist_right sublist_left)
  then have "sublist ''json.RawMessage''
      (concat (map (\<lambda>field. tabs (ident + 1) @ Title (Name field) @ '' ''
          @ writeType (Type field) json (ident + 1)
          @ (if json then wire_tag field else []) @ ''\<newline>'') fs))"
    using f(1) by (rule sublist_concat_map [where g = "\<lambda>field. tabs (ident + 1) @ Title (Name field) @ '' ''
          @ writeType (Type field) json (ident + 1)
          @ (if json then wire_tag field else []) @ ''\<newline>''", rotated])
  then have "sublist ''json.RawMessage''
      (''struct {\<newline>'' @ concat (map (\<lambda>field. tabs (ident + 1) @ Title (Name field) @ '' ''
          @ writeType (Type field) json (ident + 1)
          @ (if json then wire_tag field else []) @ ''\<newline>'') fs) @ tabs ident @ ''}'')"
    by (intro sublist_right sublist_left)
  then show ?case
    using nonempty by simp
next
  case (7 e json ident)
  then show ?case
    using sublist_right [of _ "writeType e json ident" "''[]''"] by simp
next
  case (8 e json ident)
  then show ?case
    using sublist_right [of _ "writeType e json ident" "''map[string]''"] by simp
next
  case (9 e json ident)
  then show ?case
    using sublist_right [of _ "writeType e json ident" "''*''"] by simp
qed simp_all

lemma field_in_params:
  assumes "f \<in> set fs" and "sublist s (writeType (Type f) False 1)"
  shows "sublist s (concat (map in_param fs))"
    and "sublist s (concat (map out_pointer_param fs))"
    and "sublist s (reply_params i fs)"
proof -
  have "sublist s (in_param f)"
    unfolding in_param_def using assms(2) by (intro sublist_right)
  then show "sublist s (concat (map in_param fs))"
    using assms(1) by (rule sublist_concat_map [rotated])
  have "sublist s (out_pointer_param f)"
    unfolding out_pointer_param_def using assms(2) by (intro sublist_right)
  then show "sublist s (concat (map out_pointer_param fs))"
    using assms(1) by (rule sublist_concat_map [rotated])
  show "sublist s (reply_params i fs)"
    using assms
  proof (induction fs arbitrary: i)
    case Nil
    then show ?case by simp
  next
    case (Cons a fs)
    show ?case
    proof (cases "f = a")
      case True
      then have "sublist s (writeType (Type a) False 1)"
        using Cons.prems by simp
      then show ?thesis
        unfolding reply_params.simps by (intro sublist_right sublist_left)
    next
      case False
      then have "sublist s (reply_params (i + 1) fs)"
        using Cons by simp
      then show ?thesis
        unfolding reply_params.simps by (intro sublist_right)
    qed
  qed
qed

lemma Object_in_buffer:
  assumes "model_has_Object midl"
  shows "Contains (buffer_text midl) ''json.RawMessage''"
proof -
  consider (alias_type) a where "a \<in> set (Aliases midl)" "has_Object (Alias_Type a)"
    | (in_field) m f where "m \<in> set (Methods midl)" "f \<in> set (Fields (In m))" "has_Object (Type f)"
    | (out_field) m f where "m \<in> set (Methods midl)" "f \<in> set (Fields (Out m))" "has_Object (Type f)"
    | (error_field) e f where "e \<in> set (Errors midl)" "f \<in> set (Fields (Error_Type e))" "has_Object (Type f)"
    using assms unfolding model_has_Object_def list_ex_iff by blast
  then have "sublist ''json.RawMessage'' (declarations midl)"
  proof cases
    case alias_type
    have "sublist ''json.RawMessage'' (type_declaration a)"
      unfolding type_declaration_def using has_Object_rendered [OF alias_type(2)]
      by (intro sublist_right sublist_left)
    with alias_type(1) have "sublist ''json.RawMessage''
        (concat (map type_declaration (Aliases midl)))"
      by (rule sublist_concat_map)
    then have "sublist ''json.RawMessage'' (type_declarations midl)"
      unfolding type_declarations_def by (rule sublist_right)
    then show ?thesis
      unfolding declarations_def Let_def by (intro sublist_left)
  next
    case in_field
    have "sublist ''json.RawMessage'' (concat (map in_param (Fields (In m))))"
      using field_in_params(1) [OF in_field(2) has_Object_rendered [OF in_field(3)]] .
    then have "sublist ''json.RawMessage'' (client_call (IDL_Name midl) m @ client_read m)"
      unfolding client_call_def by (intro sublist_left sublist_right)
    with in_field(1) have "sublist ''json.RawMessage''
        (concat (map (\<lambda>m. client_call (IDL_Name midl) m @ client_read m) (Methods midl)))"
      by (rule sublist_concat_map)
    then have "sublist ''json.RawMessage'' (client_functions midl)"
      unfolding client_functions_def by (rule sublist_right)
    then show ?thesis
      unfolding declarations_def Let_def by (intro sublist_right sublist_left)
  next
    case out_field
    have "sublist ''json.RawMessage'' (concat (map out_pointer_param (Fields (Out m))))"
      using field_in_params(2) [OF out_field(2) has_Object_rendered [OF out_field(3)]] .
    then have "sublist ''json.RawMessage'' (client_call (IDL_Name midl) m @ client_read m)"
      unfolding client_read_def by (intro sublist_right sublist_left)
    with out_field(1) have "sublist ''json.RawMessage''
        (concat (map (\<lambda>m. client_call (IDL_Name midl) m @ client_read m) (Methods midl)))"
      by (rule sublist_concat_map)
    then have "sublist ''json.RawMessage'' (client_functions midl)"
      unfolding client_functions_def by (rule sublist_right)
    then show ?thesis
      unfolding declarations_def Let_def by (intro sublist_right sublist_left)
  next
    case error_field
    have "sublist ''json.RawMessage'' (reply_params 0 (Fields (Error_Type e)))"
      using field_in_params(3) [OF error_field(2) has_Object_rendered [OF error_field(3)]] .
    then have "sublist ''json.RawMessage'' (error_reply (IDL_Name midl) e)"
      unfolding error_reply_def by (intro sublist_right sublist_left)
    with error_field(1) have "sublist ''json.RawMessage''
        (concat (map (error_reply (IDL_Name midl)) (Errors midl)))"
      by (rule sublist_concat_map)
    then have "sublist ''json.RawMessage'' (error_replies midl)"
      unfolding error_replies_def by (rule sublist_right)
    then show ?thesis
      unfolding declarations_def Let_def by (intro sublist_right sublist_left)
  qed
  then show ?thesis
    unfolding Contains_def buffer_text_def by (intro sublist_right)
qed


section \<open>A backquote in the description\<close>







end
